theory Spec2Isabelle
  imports Main "HOL-Library.Word"
begin

section \<open>Buffers and views of \<open>tile/base/buffer.h\<close>\<close>

text \<open>
  The header declares the abstract classes \<open>View\<close> and \<open>Buffer\<close> and the reference
  implementation \<open>SimpleBuffer\<close>, a buffer backed by a \<open>std::vector<char>\<close>.

  A view of a \<open>SimpleBuffer\<close> holds a raw pointer into the vector's storage, so the
  claims about it depend on aliasing. The embedding therefore has an explicit free
  store: one array of \<open>char\<close> per allocation, addressed by its index. A C++ \<open>char\<close>
  is the 8-bit \<^typ>\<open>char\<close> of HOL, \<open>size_t\<close> and \<open>uint64_t\<close> are 64-bit words
  (an LP64 target), and an access outside an allocation, which is undefined behaviour
  in C++, is the result \<open>None\<close>.

  The definitions of the constructors and of \<open>MapCurrent\<close>, \<open>MapDiscard\<close> and \<open>Clone\<close>
  say what these do once their allocations have succeeded. For \<open>MapCurrent\<close> the call
  with its allocations, which can fail with \<open>std::bad_alloc\<close>, is
  \<open>SimpleBuffer_MapCurrent_alloc\<close>. The destruction of a buffer is not part of the
  embedding: the storage of a buffer is there for as long as a property speaks of the
  buffer.
\<close>

subsection \<open>The free store and raw pointers\<close>

type_synonym addr = nat

type_synonym heap = "char list list"

text \<open>
  A \<open>char*\<close>: the null pointer, or an offset into one allocation, or the pointer
  \<open>wild\<close> that arithmetic on the null pointer gives. That arithmetic is undefined in
  C++, and so is every use of its result.
\<close>

datatype ptr = nullptr | Ptr addr nat | wild

type_synonym size_t = "64 word"

type_synonym uint64_t = "64 word"

text \<open>Pointer arithmetic \<open>p + n\<close>.\<close>

fun ptr_add :: "ptr \<Rightarrow> size_t \<Rightarrow> ptr" where
  "ptr_add nullptr n = (if n = 0 then nullptr else wild)"
| "ptr_add (Ptr a off) n = Ptr a (off + unat n)"
| "ptr_add wild n = wild"

text \<open>Reading \<open>*p\<close> and assigning \<open>*p = c\<close>.\<close>

fun load :: "heap \<Rightarrow> ptr \<Rightarrow> char option" where
  "load h nullptr = None"
| "load h wild = None"
| "load h (Ptr a off) =
     (if a < length h \<and> off < length (h ! a) then Some (h ! a ! off) else None)"

fun store :: "heap \<Rightarrow> ptr \<Rightarrow> char \<Rightarrow> heap option" where
  "store h nullptr c = None"
| "store h wild c = None"
| "store h (Ptr a off) c =
     (if a < length h \<and> off < length (h ! a) then Some (h[a := (h ! a)[off := c]]) else None)"

text \<open>
  The range constructor \<open>std::string(first, last)\<close>: the characters from \<open>first\<close> up to
  \<open>last\<close>, both pointing into the same allocation.
\<close>

fun string_of_range :: "heap \<Rightarrow> ptr \<Rightarrow> ptr \<Rightarrow> string option" where
  "string_of_range h nullptr nullptr = Some []"
| "string_of_range h (Ptr a i) (Ptr b j) =
     (if a = b \<and> a < length h \<and> i \<le> j \<and> j \<le> length (h ! a)
      then Some (take (j - i) (drop i (h ! a))) else None)"
| "string_of_range h _ _ = None"

subsection \<open>\<open>std::vector<char>\<close>\<close>

text \<open>
  A vector is the address of its storage; its elements are the array stored there. The
  header never resizes a vector, so the storage of a vector stays where it is.
\<close>

text \<open>\<open>std::vector<char>(n, c)\<close>\<close>

definition vector_fill :: "size_t \<Rightarrow> char \<Rightarrow> heap \<Rightarrow> addr \<times> heap" where
  "vector_fill n c h = (length h, h @ [replicate (unat n) c])"

text \<open>The copy constructor, from the elements of the vector that is copied.\<close>

definition vector_copy :: "string \<Rightarrow> heap \<Rightarrow> addr \<times> heap" where
  "vector_copy xs h = (length h, h @ [xs])"

definition vector_elems :: "heap \<Rightarrow> addr \<Rightarrow> string" where
  "vector_elems h a = h ! a"

text \<open>\<open>size()\<close> and \<open>data()\<close>\<close>

definition vector_size :: "heap \<Rightarrow> addr \<Rightarrow> size_t" where
  "vector_size h a = of_nat (length (h ! a))"

definition vector_data :: "addr \<Rightarrow> ptr" where
  "vector_data a = Ptr a 0"

subsection \<open>\<open>View\<close>\<close>

text \<open>
  The members \<open>data_\<close> and \<open>size_\<close> (a name of HOL cannot end in an underscore).
\<close>

record View =
  v_data :: ptr
  v_size :: size_t

text \<open>The two constructors \<open>View()\<close> and \<open>View(data, size)\<close>.\<close>

definition View_default :: View where
  "View_default = \<lparr>v_data = nullptr, v_size = 0\<rparr>"

definition View_init :: "ptr \<Rightarrow> size_t \<Rightarrow> View" where
  "View_init d n = \<lparr>v_data = d, v_size = n\<rparr>"

definition View_data :: "View \<Rightarrow> ptr" where
  "View_data v = v_data v"

definition View_size :: "View \<Rightarrow> size_t" where
  "View_size v = v_size v"

text \<open>\<open>operator[]\<close> returns a reference to \<open>data_[pos]\<close>, the object at \<open>data_ + pos\<close>.\<close>

definition View_index :: "View \<Rightarrow> size_t \<Rightarrow> ptr" where
  "View_index v pos = ptr_add (v_data v) pos"

definition View_begin :: "View \<Rightarrow> ptr" where
  "View_begin v = v_data v"

definition View_cbegin :: "View \<Rightarrow> ptr" where
  "View_cbegin v = v_data v"

definition View_end :: "View \<Rightarrow> ptr" where
  "View_end v = ptr_add (v_data v) (v_size v)"

definition View_cend :: "View \<Rightarrow> ptr" where
  "View_cend v = ptr_add (v_data v) (v_size v)"

definition View_str :: "heap \<Rightarrow> View \<Rightarrow> string option" where
  "View_str h v = string_of_range h (View_cbegin v) (View_cend v)"

subsection \<open>Exceptions and futures\<close>

text \<open>
  The exceptions a call of the header can end with: the \<open>std::runtime_error\<close> it throws
  itself, with its message, and the two by which the standard library reports that
  memory is short, \<open>std::bad_alloc\<close> of an allocation and \<open>std::length_error\<close>, with its
  message, of a vector longer than \<open>max_size()\<close>. A call that may throw returns a sum,
  \<open>Inl\<close> the exception thrown.
\<close>

datatype exception = runtime_error string | bad_alloc | length_error string

text \<open>
  \<open>operator new\<close> returns storage or throws \<open>std::bad_alloc\<close>. Whether the free store
  has room for the object is for the environment to say, so it is an argument: \<open>True\<close>
  when there is room.
\<close>

definition operator_new :: "bool \<Rightarrow> exception + unit" where
  "operator_new room = (if room then Inr () else Inl bad_alloc)"

text \<open>
  A \<open>boost::future\<close> is not ready yet, or ready with a value, or ready with an
  exception; \<open>boost::make_ready_future\<close> makes one that is ready with the value given.
\<close>

datatype 'a future = not_ready | ready_value 'a | ready_exception exception

definition make_ready_future :: "'a \<Rightarrow> 'a future" where
  "make_ready_future x = ready_value x"

fun is_ready :: "'a future \<Rightarrow> bool" where
  "is_ready not_ready = False"
| "is_ready (ready_value x) = True"
| "is_ready (ready_exception e) = True"

subsection \<open>\<open>Buffer\<close>\<close>

text \<open>
  Of the abstract class only \<open>Clone\<close> has a body. It throws whatever the buffer is and
  whatever the state of the program, so both are parameters.
\<close>

definition Buffer_Clone :: "'buffer \<Rightarrow> 'state \<Rightarrow> (exception + 'bufferptr) \<times> 'state" where
  "Buffer_Clone b s = (Inl (runtime_error ''Not implemented''), s)"

subsection \<open>\<open>SimpleBuffer\<close> and its \<open>SimpleView\<close>\<close>

definition SimpleView_init :: "ptr \<Rightarrow> size_t \<Rightarrow> View" where
  "SimpleView_init d n = View_init d n"

definition SimpleView_WriteBack :: "'ctx \<Rightarrow> View \<Rightarrow> heap \<Rightarrow> heap" where
  "SimpleView_WriteBack ctx v h = h"

text \<open>The member \<open>data_\<close>, a \<open>std::vector<char>\<close>.\<close>

record SimpleBuffer =
  b_data :: addr

text \<open>The constructors \<open>SimpleBuffer(uint64_t size)\<close> and \<open>SimpleBuffer(const std::vector<char>& data)\<close>.\<close>

definition SimpleBuffer_of_size :: "uint64_t \<Rightarrow> heap \<Rightarrow> SimpleBuffer \<times> heap" where
  "SimpleBuffer_of_size n h = (case vector_fill n (CHR 0x00) h of (a, h') \<Rightarrow> (\<lparr>b_data = a\<rparr>, h'))"

definition SimpleBuffer_of_data :: "string \<Rightarrow> heap \<Rightarrow> SimpleBuffer \<times> heap" where
  "SimpleBuffer_of_data xs h = (case vector_copy xs h of (a, h') \<Rightarrow> (\<lparr>b_data = a\<rparr>, h'))"

definition SimpleBuffer_size :: "heap \<Rightarrow> SimpleBuffer \<Rightarrow> uint64_t" where
  "SimpleBuffer_size h b = vector_size h (b_data b)"

text \<open>
  The bodies of \<open>MapCurrent\<close>, \<open>MapDiscard\<close> and \<open>Clone\<close>, with the allocations they make
  taken to succeed.
\<close>

definition SimpleBuffer_MapCurrent ::
  "'ctx \<Rightarrow> SimpleBuffer \<Rightarrow> heap \<Rightarrow> (exception + View future) \<times> heap" where
  "SimpleBuffer_MapCurrent ctx b h =
     (let view = SimpleView_init (vector_data (b_data b)) (vector_size h (b_data b))
      in (Inr (make_ready_future view), h))"

text \<open>
  The call of \<open>MapCurrent\<close> with its two allocations, in the order of the body: the
  \<open>new SimpleView\<close>, and the shared state that \<open>boost::make_ready_future\<close> allocates for
  the future. When the second fails the \<open>unique_ptr\<close> deletes the view, and the
  exception leaves the call.
\<close>

definition SimpleBuffer_MapCurrent_alloc ::
  "bool \<Rightarrow> bool \<Rightarrow> 'ctx \<Rightarrow> SimpleBuffer \<Rightarrow> heap \<Rightarrow> (exception + View future) \<times> heap" where
  "SimpleBuffer_MapCurrent_alloc room_view room_state ctx b h =
     (case operator_new room_view of
        Inl e \<Rightarrow> (Inl e, h)
      | Inr _ \<Rightarrow>
          (case operator_new room_state of
             Inl e \<Rightarrow> (Inl e, h)
           | Inr _ \<Rightarrow> SimpleBuffer_MapCurrent ctx b h))"

definition SimpleBuffer_MapDiscard ::
  "'ctx \<Rightarrow> SimpleBuffer \<Rightarrow> heap \<Rightarrow> (exception + View) \<times> heap" where
  "SimpleBuffer_MapDiscard ctx b h =
     (Inr (SimpleView_init (vector_data (b_data b)) (vector_size h (b_data b))), h)"

definition SimpleBuffer_Clone :: "SimpleBuffer \<Rightarrow> heap \<Rightarrow> (exception + SimpleBuffer) \<times> heap" where
  "SimpleBuffer_Clone b h =
     (case SimpleBuffer_of_data (vector_elems h (b_data b)) h of (b2, h') \<Rightarrow> (Inr b2, h'))"

text \<open>
  \<open>Clone\<close> is virtual. A \<open>BufferPtr\<close> points to a \<open>SimpleBuffer\<close>, whose \<open>Clone\<close> is the
  final overrider, or to an object of a class derived from \<open>Buffer\<close> that does not
  override \<open>Clone\<close> and so runs that of \<open>Buffer\<close>. The header has no such class: what
  its objects are is a parameter.
\<close>

datatype 'obj Buffer = SimpleBuffer_object SimpleBuffer | Inheriting_object 'obj

fun BufferPtr_Clone :: "'obj Buffer \<Rightarrow> heap \<Rightarrow> (exception + 'obj Buffer) \<times> heap" where
  "BufferPtr_Clone (SimpleBuffer_object b) h =
     (case SimpleBuffer_Clone b h of
        (Inl e, h') \<Rightarrow> (Inl e, h')
      | (Inr b2, h') \<Rightarrow> (Inr (SimpleBuffer_object b2), h'))"
| "BufferPtr_Clone (Inheriting_object x) h = Buffer_Clone x h"

text \<open>
  A buffer that exists owns the storage of its vector, whose length is a \<open>size_t\<close>.
\<close>

definition SimpleBuffer_valid :: "heap \<Rightarrow> SimpleBuffer \<Rightarrow> bool" where
  "SimpleBuffer_valid h b \<longleftrightarrow> b_data b < length h \<and> length (h ! b_data b) < 2 ^ 64"

subsection \<open>What a caller does with a view\<close>

text \<open>
  The bytes a view shows: \<open>v[0]\<close>, ..., \<open>v[size() - 1]\<close>, each read through
  \<open>operator[]\<close>.
\<close>

fun read_from :: "heap \<Rightarrow> View \<Rightarrow> nat \<Rightarrow> nat \<Rightarrow> string option" where
  "read_from h v pos 0 = Some []"
| "read_from h v pos (Suc k) =
     (case load h (View_index v (of_nat pos)) of
        None \<Rightarrow> None
      | Some c \<Rightarrow> (case read_from h v (Suc pos) k of None \<Rightarrow> None | Some cs \<Rightarrow> Some (c # cs)))"

definition view_bytes :: "heap \<Rightarrow> View \<Rightarrow> string option" where
  "view_bytes h v = read_from h v 0 (unat (View_size v))"

text \<open>
  A sequence of assignments \<open>v[pos] = c\<close> through one view, in order. It stops, with
  \<open>None\<close>, at an assignment outside the allocation the view points into.
\<close>

fun assign_all :: "View \<Rightarrow> (size_t \<times> char) list \<Rightarrow> heap \<Rightarrow> heap option" where
  "assign_all v [] h = Some h"
| "assign_all v ((pos, c) # ws) h =
     (case store h (View_index v pos) c of
        None \<Rightarrow> None
      | Some h' \<Rightarrow> assign_all v ws h')"

text \<open>Writing a byte sequence through a view: \<open>v[i] = cs[i]\<close> for \<open>i\<close> from 0 on.\<close>

definition write_bytes :: "View \<Rightarrow> string \<Rightarrow> heap \<Rightarrow> heap option" where
  "write_bytes v cs h = assign_all v (zip (map of_nat [0..<length cs]) cs) h"

subsection \<open>Sequences of calls\<close>

text \<open>
  A caller holds buffers and the views it has mapped, each with the index of the buffer
  it was mapped from, and makes one call after the other: it maps a view of a buffer,
  clones a buffer, writes a view back, or assigns to a byte of a view. A call on a
  buffer or view the caller does not hold, or an assignment outside an allocation, ends
  the sequence with \<open>None\<close>.
\<close>

record world =
  w_heap :: heap
  w_buffers :: "SimpleBuffer list"
  w_views :: "(nat \<times> View) list"

datatype call =
  MapCurrent nat | MapDiscard nat | Clone nat | WriteBack nat | Assign nat size_t char

fun exec :: "'ctx \<Rightarrow> call \<Rightarrow> world \<Rightarrow> world option" where
  "exec ctx (MapCurrent i) w =
     (if i < length (w_buffers w) then
        (case SimpleBuffer_MapCurrent ctx (w_buffers w ! i) (w_heap w) of
           (Inr (ready_value v), h) \<Rightarrow> Some (w\<lparr>w_heap := h, w_views := w_views w @ [(i, v)]\<rparr>)
         | _ \<Rightarrow> None)
      else None)"
| "exec ctx (MapDiscard i) w =
     (if i < length (w_buffers w) then
        (case SimpleBuffer_MapDiscard ctx (w_buffers w ! i) (w_heap w) of
           (Inr v, h) \<Rightarrow> Some (w\<lparr>w_heap := h, w_views := w_views w @ [(i, v)]\<rparr>)
         | _ \<Rightarrow> None)
      else None)"
| "exec ctx (Clone i) w =
     (if i < length (w_buffers w) then
        (case SimpleBuffer_Clone (w_buffers w ! i) (w_heap w) of
           (Inr b2, h) \<Rightarrow> Some (w\<lparr>w_heap := h, w_buffers := w_buffers w @ [b2]\<rparr>)
         | _ \<Rightarrow> None)
      else None)"
| "exec ctx (WriteBack k) w =
     (if k < length (w_views w) then
        Some (w\<lparr>w_heap := SimpleView_WriteBack ctx (snd (w_views w ! k)) (w_heap w)\<rparr>)
      else None)"
| "exec ctx (Assign k pos c) w =
     (if k < length (w_views w) then
        (case store (w_heap w) (View_index (snd (w_views w ! k)) pos) c of
           None \<Rightarrow> None
         | Some h \<Rightarrow> Some (w\<lparr>w_heap := h\<rparr>))
      else None)"

fun run :: "'ctx \<Rightarrow> call list \<Rightarrow> world \<Rightarrow> world option" where
  "run ctx [] w = Some w"
| "run ctx (c # cs) w = (case exec ctx c w of None \<Rightarrow> None | Some w' \<Rightarrow> run ctx cs w')"

section \<open>Properties\<close>

subsection \<open>Stores and loads\<close>

lemma unat_of_nat64: "n < 2 ^ 64 \<Longrightarrow> unat (of_nat n :: 64 word) = n"
  by (simp add: unat_of_nat)

lemma store_length: "store h p c = Some h' \<Longrightarrow> length h' = length h"
  by (cases p) (auto split: if_splits)

lemma store_block_length: "store h p c = Some h' \<Longrightarrow> length (h' ! a) = length (h ! a)"
  by (cases p) (auto simp: nth_list_update split: if_splits)

lemma store_other_block: "store h (Ptr a off) c = Some h' \<Longrightarrow> a' \<noteq> a \<Longrightarrow> h' ! a' = h ! a'"
  by (auto split: if_splits)

lemma store_in_block:
  "a < length h \<Longrightarrow> off < length (h ! a) \<Longrightarrow>
   store h (Ptr a off) c = Some (h[a := (h ! a)[off := c]])"
  by simp

subsection \<open>Sequences of assignments\<close>

lemma assign_all_length: "assign_all v ws h = Some h' \<Longrightarrow> length h' = length h"
  by (induction v ws h rule: assign_all.induct) (auto split: option.splits dest: store_length)

lemma assign_all_block_length:
  "assign_all v ws h = Some h' \<Longrightarrow> length (h' ! a) = length (h ! a)"
  by (induction v ws h rule: assign_all.induct)
     (auto split: option.splits dest: store_block_length)

lemma assign_all_other_block:
  "assign_all v ws h = Some h' \<Longrightarrow> v_data v = Ptr a off \<Longrightarrow> a' \<noteq> a \<Longrightarrow> h' ! a' = h ! a'"
proof (induction v ws h rule: assign_all.induct)
  case (1 v h)
  then show ?case by simp
next
  case (2 v pos c ws h)
  from "2.prems" obtain h1 where st: "store h (View_index v pos) c = Some h1"
    and rest: "assign_all v ws h1 = Some h'"
    by (auto split: option.splits)
  from st "2.prems" have "h1 ! a' = h ! a'"
    by (auto simp: View_index_def split: if_splits)
  moreover from "2.IH" [OF st rest] "2.prems" have "h' ! a' = h1 ! a'" by simp
  ultimately show ?case by simp
qed

lemma assign_all_block:
  assumes "v_data v = Ptr a 0" and "a < length h" and "length (h ! a) < 2 ^ 64"
    and "pos + length cs \<le> length (h ! a)"
  shows "assign_all v (zip (map of_nat [pos..<pos + length cs]) cs) h =
           Some (h[a := take pos (h ! a) @ cs @ drop (pos + length cs) (h ! a)])"
  using assms
proof (induction cs arbitrary: pos h)
  case Nil
  then show ?case by (simp add: list_update_same_conv)
next
  case (Cons c cs)
  let ?h = "h[a := (h ! a)[pos := c]]"
  from Cons.prems have pos: "pos < length (h ! a)" "pos < 2 ^ 64" by simp_all
  then have st: "store h (View_index v (of_nat pos)) c = Some ?h"
    using Cons.prems by (simp add: View_index_def unat_of_nat64)
  have blk: "?h ! a = (h ! a)[pos := c]" using Cons.prems by simp
  have ix: "[pos..<pos + length (c # cs)] = pos # [Suc pos..<Suc pos + length cs]"
    using upt_conv_Cons [of pos "pos + length (c # cs)"] by simp
  have "assign_all v (zip (map of_nat [Suc pos..<Suc pos + length cs]) cs) ?h =
          Some (?h[a := take (Suc pos) (?h ! a) @ cs @ drop (Suc pos + length cs) (?h ! a)])"
    using Cons.prems by (intro Cons.IH) simp_all
  moreover have "take (Suc pos) ((h ! a)[pos := c]) = take pos (h ! a) @ [c]"
    using pos by (simp add: take_Suc_conv_app_nth)
  ultimately show ?case using st blk unfolding ix by simp
qed

lemma write_bytes_block:
  assumes "v_data v = Ptr a 0" and "a < length h" and "length (h ! a) < 2 ^ 64"
    and "length cs = length (h ! a)"
  shows "write_bytes v cs h = Some (h[a := cs])"
  using assign_all_block [OF assms(1-3), of 0 cs] assms(4) by (simp add: write_bytes_def)

subsection \<open>Views of a whole allocation\<close>

lemma ptr_add_View_data: "ptr_add (View_data v) pos = View_index v pos"
  by (simp add: View_data_def View_index_def)

lemma View_init_index: "View_index (View_init (Ptr a off) n) pos = Ptr a (off + unat pos)"
  by (simp add: View_index_def View_init_def)

lemma View_init_size: "View_size (View_init p n) = n"
  by (simp add: View_size_def View_init_def)

lemma read_from_block:
  assumes "v_data v = Ptr a 0" and "a < length h" and "length (h ! a) < 2 ^ 64"
    and "pos + k \<le> length (h ! a)"
  shows "read_from h v pos k = Some (take k (drop pos (h ! a)))"
  using assms
proof (induction k arbitrary: pos)
  case 0
  then show ?case by simp
next
  case (Suc k)
  then have pos: "pos < length (h ! a)" "pos < 2 ^ 64" by simp_all
  then have ld: "load h (View_index v (of_nat pos)) = Some (h ! a ! pos)"
    using Suc.prems by (simp add: View_index_def unat_of_nat64)
  have "read_from h v (Suc pos) k = Some (take k (drop (Suc pos) (h ! a)))"
    using Suc.prems by (intro Suc.IH) simp_all
  moreover have "drop pos (h ! a) = h ! a ! pos # drop (Suc pos) (h ! a)"
    using pos by (simp add: Cons_nth_drop_Suc)
  ultimately show ?case using ld by simp
qed

lemma view_bytes_whole_block:
  assumes "a < length h" and "length (h ! a) < 2 ^ 64"
  shows "view_bytes h (View_init (Ptr a 0) (of_nat (length (h ! a)))) = Some (h ! a)"
proof -
  have "read_from h (View_init (Ptr a 0) (of_nat (length (h ! a)))) 0 (length (h ! a)) =
          Some (take (length (h ! a)) (drop 0 (h ! a)))"
    using assms by (intro read_from_block) (simp_all add: View_init_def)
  then show ?thesis using assms by (simp add: view_bytes_def View_init_size unat_of_nat64)
qed

lemma View_str_block:
  assumes "a < length h" and "off + unat n \<le> length (h ! a)"
  shows "View_str h (View_init (Ptr a off) n) = Some (take (unat n) (drop off (h ! a)))"
  using assms by (simp add: View_str_def View_cbegin_def View_cend_def View_init_def)

lemma load_whole_block:
  assumes "a < length h" and "unat pos < length (h ! a)"
  shows "load h (View_index (View_init (Ptr a 0) n) pos) = Some (h ! a ! unat pos)"
  using assms by (simp add: View_init_index)

lemma store_whole_block:
  assumes "a < length h" and "unat pos < length (h ! a)"
  shows "store h (View_index (View_init (Ptr a 0) n) pos) c =
           Some (h[a := (h ! a)[unat pos := c]])"
  using assms by (simp add: View_init_index)

lemma less_View_size:
  assumes "length xs < 2 ^ 64" and "pos < View_size (View_init p (of_nat (length xs)))"
  shows "unat pos < length xs"
  using assms by (simp add: View_init_size word_less_nat_alt unat_of_nat64)

lemma assign_all_view_bytes:
  assumes ws: "assign_all v ws h = Some h'" and v: "v_data v = Ptr a off"
    and a': "a' < length h" "length (h ! a') < 2 ^ 64" "a' \<noteq> a"
  shows "h' ! a' = h ! a' \<and>
         view_bytes h' (View_init (Ptr a' 0) (of_nat (length (h ! a')))) = Some (h ! a')"
proof -
  from assign_all_other_block [OF ws v a'(3)] have same: "h' ! a' = h ! a'" .
  from assign_all_length [OF ws] a'(1) have "a' < length h'" by simp
  from view_bytes_whole_block [OF this] a'(2) same show ?thesis by simp
qed

subsection \<open>What the constructors and the mappings return\<close>

lemma SimpleBuffer_of_size_eq:
  "SimpleBuffer_of_size n h = (\<lparr>b_data = length h\<rparr>, h @ [replicate (unat n) (CHR 0x00)])"
  by (simp add: SimpleBuffer_of_size_def vector_fill_def)

lemma SimpleBuffer_of_data_eq:
  "SimpleBuffer_of_data xs h = (\<lparr>b_data = length h\<rparr>, h @ [xs])"
  by (simp add: SimpleBuffer_of_data_def vector_copy_def)

lemma SimpleBuffer_size_eq: "SimpleBuffer_size h b = of_nat (length (h ! b_data b))"
  by (simp add: SimpleBuffer_size_def vector_size_def)

lemma SimpleBuffer_of_size_valid:
  assumes "SimpleBuffer_of_size n h = (b, h0)"
  shows "SimpleBuffer_valid h0 b \<and> b_data b = length h \<and> h0 = h @ [replicate (unat n) (CHR 0x00)]"
proof -
  have "unat n < 2 ^ 64" using unsigned_less [of n] by simp
  with assms show ?thesis by (auto simp: SimpleBuffer_of_size_eq SimpleBuffer_valid_def)
qed

lemma SimpleBuffer_of_data_valid:
  assumes "SimpleBuffer_of_data xs h = (b, h0)" and "length xs < 2 ^ 64"
  shows "SimpleBuffer_valid h0 b \<and> b_data b = length h \<and> h0 = h @ [xs]"
  using assms by (auto simp: SimpleBuffer_of_data_eq SimpleBuffer_valid_def)

lemma SimpleBuffer_Clone_eq:
  "SimpleBuffer_Clone b h = (Inr \<lparr>b_data = length h\<rparr>, h @ [h ! b_data b])"
  by (simp add: SimpleBuffer_Clone_def SimpleBuffer_of_data_eq vector_elems_def)

lemma MapCurrent_view:
  "SimpleBuffer_MapCurrent ctx b h =
     (Inr (ready_value (View_init (Ptr (b_data b) 0) (of_nat (length (h ! b_data b))))), h)"
  by (simp add: SimpleBuffer_MapCurrent_def SimpleView_init_def vector_data_def
      vector_size_def make_ready_future_def)

lemma MapDiscard_view:
  "SimpleBuffer_MapDiscard ctx b h =
     (Inr (View_init (Ptr (b_data b) 0) (of_nat (length (h ! b_data b)))), h)"
  by (simp add: SimpleBuffer_MapDiscard_def SimpleView_init_def vector_data_def vector_size_def)

lemma mapped_view:
  assumes "SimpleBuffer_MapCurrent ctx b h = (Inr (ready_value v), h') \<or>
           SimpleBuffer_MapDiscard ctx b h = (Inr v, h')"
  shows "v = View_init (Ptr (b_data b) 0) (of_nat (length (h ! b_data b))) \<and> h' = h"
  using assms by (auto simp: MapCurrent_view MapDiscard_view)

lemma MapCurrent_alloc_room:
  "SimpleBuffer_MapCurrent_alloc True True ctx b h = SimpleBuffer_MapCurrent ctx b h"
  by (simp add: SimpleBuffer_MapCurrent_alloc_def operator_new_def)

lemma MapCurrent_alloc_no_room:
  "\<not> (room_view \<and> room_state) \<Longrightarrow>
   SimpleBuffer_MapCurrent_alloc room_view room_state ctx b h = (Inl bad_alloc, h)"
  by (auto simp: SimpleBuffer_MapCurrent_alloc_def operator_new_def)

lemma SimpleBuffer_valid_grow:
  assumes "length h \<le> length h'"
    and "\<forall>a<length h. length (h' ! a) = length (h ! a)"
    and "SimpleBuffer_valid h b"
  shows "SimpleBuffer_valid h' b \<and> SimpleBuffer_size h' b = SimpleBuffer_size h b"
  using assms by (auto simp: SimpleBuffer_valid_def SimpleBuffer_size_eq)

subsection \<open>One call and many\<close>

lemma exec_heap:
  assumes "exec ctx c w = Some w'"
  shows "length (w_heap w) \<le> length (w_heap w') \<and>
         (\<forall>a<length (w_heap w). length (w_heap w' ! a) = length (w_heap w ! a))"
proof (cases c)
  case (MapCurrent i)
  with assms show ?thesis by (auto simp: MapCurrent_view split: if_splits)
next
  case (MapDiscard i)
  with assms show ?thesis by (auto simp: MapDiscard_view split: if_splits)
next
  case (Clone i)
  with assms show ?thesis by (auto simp: SimpleBuffer_Clone_eq nth_append split: if_splits)
next
  case (WriteBack k)
  with assms show ?thesis by (auto simp: SimpleView_WriteBack_def split: if_splits)
next
  case (Assign k pos x)
  with assms show ?thesis
    by (auto split: if_splits option.splits dest: store_length store_block_length)
qed

lemma exec_buffers:
  assumes "exec ctx c w = Some w'"
  shows "\<exists>bs. w_buffers w' = w_buffers w @ bs"
  using assms
  by (cases c)
     (auto simp: MapCurrent_view MapDiscard_view SimpleBuffer_Clone_eq
       split: if_splits option.splits)

lemma run_heap:
  assumes "run ctx cs w = Some w'"
  shows "length (w_heap w) \<le> length (w_heap w') \<and>
         (\<forall>a<length (w_heap w). length (w_heap w' ! a) = length (w_heap w ! a)) \<and>
         (\<exists>bs. w_buffers w' = w_buffers w @ bs)"
  using assms
proof (induction cs arbitrary: w)
  case Nil
  then show ?case by simp
next
  case (Cons c cs)
  then obtain w1 where e: "exec ctx c w = Some w1" and r: "run ctx cs w1 = Some w'"
    by (auto split: option.splits)
  from exec_heap [OF e] exec_buffers [OF e] Cons.IH [OF r] show ?case
    by (auto simp: le_trans)
qed

lemma exec_bounded:
  assumes bufs: "\<forall>b\<in>set (w_buffers w). SimpleBuffer_valid (w_heap w) b"
    and views: "\<forall>(i, v)\<in>set (w_views w).
        i < length (w_buffers w) \<and> View_size v \<le> SimpleBuffer_size (w_heap w) (w_buffers w ! i)"
    and e: "exec ctx c w = Some w'"
  shows "(\<forall>b\<in>set (w_buffers w'). SimpleBuffer_valid (w_heap w') b) \<and>
         (\<forall>(i, v)\<in>set (w_views w').
            i < length (w_buffers w') \<and>
            View_size v \<le> SimpleBuffer_size (w_heap w') (w_buffers w' ! i))"
proof -
  from exec_heap [OF e]
  have old: "SimpleBuffer_valid (w_heap w') b \<and>
             SimpleBuffer_size (w_heap w') b = SimpleBuffer_size (w_heap w) b"
    if "b \<in> set (w_buffers w)" for b
    using SimpleBuffer_valid_grow [of "w_heap w" "w_heap w'" b] bufs that by blast
  have old_views: "i < length (w_buffers w) \<and>
      View_size v \<le> SimpleBuffer_size (w_heap w') (w_buffers w ! i)"
    if "(i, v) \<in> set (w_views w)" for i v
  proof -
    from views that have i: "i < length (w_buffers w)"
      and le: "View_size v \<le> SimpleBuffer_size (w_heap w) (w_buffers w ! i)"
      by auto
    from i have "w_buffers w ! i \<in> set (w_buffers w)" by simp
    from old [OF this] i le show ?thesis by simp
  qed
  have mapped: "View_size (View_init p (of_nat (length (w_heap w ! b_data (w_buffers w ! i))))) \<le>
      SimpleBuffer_size (w_heap w) (w_buffers w ! i)" for p i
    by (simp add: View_init_size SimpleBuffer_size_eq)
  show ?thesis
  proof (cases c)
    case (MapCurrent i)
    with e have i: "i < length (w_buffers w)" and h: "w_heap w' = w_heap w"
      and b: "w_buffers w' = w_buffers w"
      and v: "w_views w' = w_views w @
        [(i, View_init (Ptr (b_data (w_buffers w ! i)) 0)
               (of_nat (length (w_heap w ! b_data (w_buffers w ! i)))))]"
      by (auto simp: MapCurrent_view split: if_splits)
    from old old_views mapped i show ?thesis unfolding b v by (auto simp: h)
  next
    case (MapDiscard i)
    with e have i: "i < length (w_buffers w)" and h: "w_heap w' = w_heap w"
      and b: "w_buffers w' = w_buffers w"
      and v: "w_views w' = w_views w @
        [(i, View_init (Ptr (b_data (w_buffers w ! i)) 0)
               (of_nat (length (w_heap w ! b_data (w_buffers w ! i)))))]"
      by (auto simp: MapDiscard_view split: if_splits)
    from old old_views mapped i show ?thesis unfolding b v by (auto simp: h)
  next
    case (Clone i)
    with e have i: "i < length (w_buffers w)"
      and h: "w_heap w' = w_heap w @ [w_heap w ! b_data (w_buffers w ! i)]"
      and b: "w_buffers w' = w_buffers w @ [\<lparr>b_data = length (w_heap w)\<rparr>]"
      and v: "w_views w' = w_views w"
      by (auto simp: SimpleBuffer_Clone_eq split: if_splits)
    from i bufs have "length (w_heap w ! b_data (w_buffers w ! i)) < 2 ^ 64"
      by (simp add: SimpleBuffer_valid_def)
    then have new: "SimpleBuffer_valid (w_heap w') \<lparr>b_data = length (w_heap w)\<rparr>"
      by (simp add: SimpleBuffer_valid_def h)
    from old new have "\<forall>b\<in>set (w_buffers w'). SimpleBuffer_valid (w_heap w') b"
      unfolding b by auto
    moreover have "i < length (w_buffers w') \<and>
        View_size v \<le> SimpleBuffer_size (w_heap w') (w_buffers w' ! i)"
      if "(i, v) \<in> set (w_views w')" for i v
      using old_views [of i v] that unfolding v b by (simp add: nth_append)
    ultimately show ?thesis by blast
  next
    case (WriteBack k)
    with e have b: "w_buffers w' = w_buffers w" and v: "w_views w' = w_views w"
      by (auto split: if_splits)
    from old old_views show ?thesis unfolding b v by blast
  next
    case (Assign k pos x)
    with e have b: "w_buffers w' = w_buffers w" and v: "w_views w' = w_views w"
      by (auto split: if_splits option.splits)
    from old old_views show ?thesis unfolding b v by blast
  qed
qed

text \<open>
  A call on a buffer or on a view the caller holds succeeds; an assignment does when the
  view is the one mapped from a buffer that exists and the position is below its size.
\<close>

lemma exec_MapCurrent_succeeds:
  "i < length (w_buffers w) \<Longrightarrow> \<exists>w'. exec ctx (MapCurrent i) w = Some w'"
  by (simp add: MapCurrent_view)

lemma exec_MapDiscard_succeeds:
  "i < length (w_buffers w) \<Longrightarrow> \<exists>w'. exec ctx (MapDiscard i) w = Some w'"
  by (simp add: MapDiscard_view)

lemma exec_Clone_succeeds:
  "i < length (w_buffers w) \<Longrightarrow> \<exists>w'. exec ctx (Clone i) w = Some w'"
  by (simp add: SimpleBuffer_Clone_eq)

lemma exec_WriteBack_succeeds:
  "k < length (w_views w) \<Longrightarrow> \<exists>w'. exec ctx (WriteBack k) w = Some w'"
  by simp

lemma exec_Assign_succeeds:
  assumes "k < length (w_views w)"
    and "snd (w_views w ! k) = View_init (Ptr a 0) (of_nat (length (w_heap w ! a)))"
    and "a < length (w_heap w)" and "length (w_heap w ! a) < 2 ^ 64"
    and "pos < View_size (snd (w_views w ! k))"
  shows "\<exists>w'. exec ctx (Assign k pos c) w = Some w'"
proof -
  from assms(2,4,5) have "unat pos < length (w_heap w ! a)"
    using less_View_size [of "w_heap w ! a" pos "Ptr a 0"] by simp
  with assms(1,2,3) show ?thesis by (simp add: View_init_index)
qed

section \<open>The claims\<close>

text \<open>
  Claim C1: the round trip. A view \<open>v\<close> of a buffer is mapped, by \<open>MapCurrent\<close> or by
  \<open>MapDiscard\<close>; a byte sequence \<open>B\<close> of the buffer's size is written through it, and
  \<open>WriteBack\<close> is called. All of this succeeds, and a view mapped afterwards, by either
  call, reads exactly \<open>B\<close>.
\<close>

theorem SimpleBuffer_round_trip:
  assumes "SimpleBuffer_valid h b"
    and "length B = unat (SimpleBuffer_size h b)"
    and "SimpleBuffer_MapCurrent ctx b h = (Inr (ready_value v), h0) \<or>
         SimpleBuffer_MapDiscard ctx b h = (Inr v, h0)"
  shows "\<exists>h1 v1 h2 v2 h3.
           write_bytes v B h0 = Some h1 \<and>
           SimpleBuffer_MapCurrent ctx b (SimpleView_WriteBack ctx v h1) =
             (Inr (ready_value v1), h2) \<and>
           view_bytes h2 v1 = Some B \<and>
           SimpleBuffer_MapDiscard ctx b (SimpleView_WriteBack ctx v h1) = (Inr v2, h3) \<and>
           view_bytes h3 v2 = Some B"
proof -
  let ?a = "b_data b"
  from assms(1) have a: "?a < length h" and small: "length (h ! ?a) < 2 ^ 64"
    by (simp_all add: SimpleBuffer_valid_def)
  from assms(2) small have len: "length B = length (h ! ?a)"
    by (simp add: SimpleBuffer_size_eq unat_of_nat64)
  from assms(3) have v: "v = View_init (Ptr ?a 0) (of_nat (length (h ! ?a)))" and h0: "h0 = h"
    using mapped_view [of ctx b h v h0] by auto
  have w: "write_bytes v B h0 = Some (h[?a := B])"
    unfolding h0 using a small len by (intro write_bytes_block) (simp_all add: v View_init_def)
  let ?h = "h[?a := B]"
  have blk: "?h ! ?a = B" using a by simp
  have bytes: "view_bytes ?h (View_init (Ptr ?a 0) (of_nat (length (?h ! ?a)))) = Some (?h ! ?a)"
    using a small len by (intro view_bytes_whole_block) simp_all
  let ?v = "View_init (Ptr ?a 0) (of_nat (length B))"
  have wb: "SimpleView_WriteBack ctx v ?h = ?h" by (simp add: SimpleView_WriteBack_def)
  have m1: "SimpleBuffer_MapCurrent ctx b (SimpleView_WriteBack ctx v ?h) =
              (Inr (ready_value ?v), ?h)"
    unfolding wb MapCurrent_view blk ..
  have m2: "SimpleBuffer_MapDiscard ctx b (SimpleView_WriteBack ctx v ?h) = (Inr ?v, ?h)"
    unfolding wb MapDiscard_view blk ..
  from bytes have rd: "view_bytes ?h ?v = Some B" unfolding blk .
  from w m1 rd m2 show ?thesis by (intro exI conjI)
qed

theorem SimpleBuffer_round_trip_witness:
  "SimpleBuffer_valid [''xyz''] \<lparr>b_data = 0\<rparr> \<and>
   length ''abc'' = unat (SimpleBuffer_size [''xyz''] \<lparr>b_data = 0\<rparr>) \<and>
   SimpleBuffer_MapDiscard () \<lparr>b_data = 0\<rparr> [''xyz''] =
     (Inr \<lparr>v_data = Ptr 0 0, v_size = 3\<rparr>, [''xyz'']) \<and>
   (\<exists>h1 v1 h2 v2 h3.
      write_bytes \<lparr>v_data = Ptr 0 0, v_size = 3\<rparr> ''abc'' [''xyz''] = Some h1 \<and>
      SimpleBuffer_MapCurrent () \<lparr>b_data = 0\<rparr>
        (SimpleView_WriteBack () \<lparr>v_data = Ptr 0 0, v_size = 3\<rparr> h1) =
        (Inr (ready_value v1), h2) \<and>
      view_bytes h2 v1 = Some ''abc'' \<and>
      SimpleBuffer_MapDiscard () \<lparr>b_data = 0\<rparr>
        (SimpleView_WriteBack () \<lparr>v_data = Ptr 0 0, v_size = 3\<rparr> h1) = (Inr v2, h3) \<and>
      view_bytes h3 v2 = Some ''abc'')"
proof -
  have a: "SimpleBuffer_valid [''xyz''] \<lparr>b_data = 0\<rparr>"
    by (simp add: SimpleBuffer_valid_def)
  have b: "length ''abc'' = unat (SimpleBuffer_size [''xyz''] \<lparr>b_data = 0\<rparr>)"
    by (simp add: SimpleBuffer_size_def vector_size_def)
  have c: "SimpleBuffer_MapDiscard () \<lparr>b_data = 0\<rparr> [''xyz''] =
     (Inr \<lparr>v_data = Ptr 0 0, v_size = 3\<rparr>, [''xyz''])"
    by (simp add: SimpleBuffer_MapDiscard_def SimpleView_init_def View_init_def
        vector_data_def vector_size_def)
  from SimpleBuffer_round_trip [OF a b disjI2 [OF c]] a b c show ?thesis by (intro conjI)
qed

text \<open>
  Claim C2: \<open>Clone\<close> succeeds and returns a buffer \<open>b2\<close> of the size of \<open>b\<close> and with the
  bytes of \<open>b\<close>, which keeps its own. The two are independent: whatever is assigned
  afterwards through a view of \<open>b\<close> leaves the bytes of \<open>b2\<close>, and what its views read,
  as they were, and the other way round. The theorem after this one is the scenario of
  the bytes 1, 2, 3 overwritten with 9, 9, 9.
\<close>

theorem SimpleBuffer_Clone_independent:
  assumes "SimpleBuffer_valid h b"
  shows "\<exists>b2 h'. SimpleBuffer_Clone b h = (Inr b2, h') \<and>
           SimpleBuffer_valid h' b \<and> SimpleBuffer_valid h' b2 \<and>
           SimpleBuffer_size h' b2 = SimpleBuffer_size h b \<and>
           SimpleBuffer_size h' b = SimpleBuffer_size h b \<and>
           vector_elems h' (b_data b2) = vector_elems h (b_data b) \<and>
           vector_elems h' (b_data b) = vector_elems h (b_data b) \<and>
           (\<forall>v v2 ws h''.
              (SimpleBuffer_MapCurrent ctx b h' = (Inr (ready_value v), h') \<or>
               SimpleBuffer_MapDiscard ctx b h' = (Inr v, h')) \<longrightarrow>
              (SimpleBuffer_MapCurrent ctx b2 h' = (Inr (ready_value v2), h') \<or>
               SimpleBuffer_MapDiscard ctx b2 h' = (Inr v2, h')) \<longrightarrow>
              view_bytes h' v = Some (vector_elems h (b_data b)) \<and>
              view_bytes h' v2 = Some (vector_elems h (b_data b)) \<and>
              (assign_all v ws h' = Some h'' \<longrightarrow>
                 vector_elems h'' (b_data b2) = vector_elems h' (b_data b2) \<and>
                 view_bytes h'' v2 = view_bytes h' v2) \<and>
              (assign_all v2 ws h' = Some h'' \<longrightarrow>
                 vector_elems h'' (b_data b) = vector_elems h' (b_data b) \<and>
                 view_bytes h'' v = view_bytes h' v))"
proof -
  let ?a = "b_data b"
  let ?b2 = "\<lparr>b_data = length h\<rparr>"
  let ?h = "h @ [h ! ?a]"
  from assms have a: "?a < length h" and small: "length (h ! ?a) < 2 ^ 64"
    by (simp_all add: SimpleBuffer_valid_def)
  have old: "?h ! ?a = h ! ?a" using a by (simp add: nth_append)
  have new: "?h ! length h = h ! ?a" by simp
  have ne: "length h \<noteq> ?a" using a by simp
  have a1: "?a < length ?h" using a by simp
  have a2: "length h < length ?h" by simp
  have s1: "length (?h ! ?a) < 2 ^ 64" using small old by simp
  have s2: "length (?h ! length h) < 2 ^ 64" using small by simp
  have views: "\<forall>v v2 ws h''.
      (SimpleBuffer_MapCurrent ctx b ?h = (Inr (ready_value v), ?h) \<or>
       SimpleBuffer_MapDiscard ctx b ?h = (Inr v, ?h)) \<longrightarrow>
      (SimpleBuffer_MapCurrent ctx ?b2 ?h = (Inr (ready_value v2), ?h) \<or>
       SimpleBuffer_MapDiscard ctx ?b2 ?h = (Inr v2, ?h)) \<longrightarrow>
      view_bytes ?h v = Some (vector_elems h ?a) \<and>
      view_bytes ?h v2 = Some (vector_elems h ?a) \<and>
      (assign_all v ws ?h = Some h'' \<longrightarrow>
         vector_elems h'' (b_data ?b2) = vector_elems ?h (b_data ?b2) \<and>
         view_bytes h'' v2 = view_bytes ?h v2) \<and>
      (assign_all v2 ws ?h = Some h'' \<longrightarrow>
         vector_elems h'' ?a = vector_elems ?h ?a \<and>
         view_bytes h'' v = view_bytes ?h v)"
  proof (intro allI impI)
    fix v v2 ws h''
    assume m: "SimpleBuffer_MapCurrent ctx b ?h = (Inr (ready_value v), ?h) \<or>
           SimpleBuffer_MapDiscard ctx b ?h = (Inr v, ?h)"
      and m2: "SimpleBuffer_MapCurrent ctx ?b2 ?h = (Inr (ready_value v2), ?h) \<or>
               SimpleBuffer_MapDiscard ctx ?b2 ?h = (Inr v2, ?h)"
    let ?v = "View_init (Ptr ?a 0) (of_nat (length (?h ! ?a)))"
    let ?v2 = "View_init (Ptr (length h) 0) (of_nat (length (?h ! length h)))"
    from mapped_view [OF m] have v: "v = ?v" by simp
    from mapped_view [OF m2] have v2: "v2 = ?v2" by simp
    have d: "v_data ?v = Ptr ?a 0" and d2: "v_data ?v2 = Ptr (length h) 0"
      by (simp_all add: View_init_def)
    have r: "view_bytes ?h ?v = Some (?h ! ?a)"
      using a1 s1 by (rule view_bytes_whole_block)
    have r2: "view_bytes ?h ?v2 = Some (?h ! length h)"
      using a2 s2 by (rule view_bytes_whole_block)
    have w: "h'' ! length h = ?h ! length h \<and> view_bytes h'' ?v2 = view_bytes ?h ?v2"
      if "assign_all ?v ws ?h = Some h''"
      using assign_all_view_bytes [OF that d a2 s2 ne] r2 by simp
    have w2: "h'' ! ?a = ?h ! ?a \<and> view_bytes h'' ?v = view_bytes ?h ?v"
      if "assign_all ?v2 ws ?h = Some h''"
      using assign_all_view_bytes [OF that d2 a1 s1 ne [symmetric]] r by simp
    from r old have c1: "view_bytes ?h v = Some (vector_elems h ?a)"
      unfolding v vector_elems_def by simp
    from r2 new have c2: "view_bytes ?h v2 = Some (vector_elems h ?a)"
      unfolding v2 vector_elems_def by simp
    from w have c3: "assign_all v ws ?h = Some h'' \<longrightarrow>
         vector_elems h'' (b_data ?b2) = vector_elems ?h (b_data ?b2) \<and>
         view_bytes h'' v2 = view_bytes ?h v2"
      unfolding v v2 vector_elems_def by simp
    from w2 have c4: "assign_all v2 ws ?h = Some h'' \<longrightarrow>
         vector_elems h'' ?a = vector_elems ?h ?a \<and>
         view_bytes h'' v = view_bytes ?h v"
      unfolding v v2 vector_elems_def by simp
    from c1 c2 c3 c4
    show "view_bytes ?h v = Some (vector_elems h ?a) \<and>
      view_bytes ?h v2 = Some (vector_elems h ?a) \<and>
      (assign_all v ws ?h = Some h'' \<longrightarrow>
         vector_elems h'' (b_data ?b2) = vector_elems ?h (b_data ?b2) \<and>
         view_bytes h'' v2 = view_bytes ?h v2) \<and>
      (assign_all v2 ws ?h = Some h'' \<longrightarrow>
         vector_elems h'' ?a = vector_elems ?h ?a \<and>
         view_bytes h'' v = view_bytes ?h v)"
      by (intro conjI)
  qed
  have k1: "SimpleBuffer_Clone b h = (Inr ?b2, ?h)" by (rule SimpleBuffer_Clone_eq)
  have k2: "SimpleBuffer_valid ?h b" using a1 s1 by (simp add: SimpleBuffer_valid_def)
  have k3: "SimpleBuffer_valid ?h ?b2" using s2 by (simp add: SimpleBuffer_valid_def)
  have k4: "SimpleBuffer_size ?h ?b2 = SimpleBuffer_size h b"
    by (simp add: SimpleBuffer_size_eq)
  have k5: "SimpleBuffer_size ?h b = SimpleBuffer_size h b"
    using old by (simp add: SimpleBuffer_size_eq)
  have k6: "vector_elems ?h (b_data ?b2) = vector_elems h ?a"
    by (simp add: vector_elems_def)
  have k7: "vector_elems ?h ?a = vector_elems h ?a"
    using old by (simp add: vector_elems_def)
  from k1 k2 k3 k4 k5 k6 k7 views show ?thesis
    by (intro exI [of _ ?b2] exI [of _ ?h] conjI)
qed

theorem SimpleBuffer_Clone_independent_witness:
  "SimpleBuffer_of_data [CHR 0x01, CHR 0x02, CHR 0x03] [] =
     (\<lparr>b_data = 0\<rparr>, [[CHR 0x01, CHR 0x02, CHR 0x03]]) \<and>
   SimpleBuffer_valid [[CHR 0x01, CHR 0x02, CHR 0x03]] \<lparr>b_data = 0\<rparr> \<and>
   SimpleBuffer_Clone \<lparr>b_data = 0\<rparr> [[CHR 0x01, CHR 0x02, CHR 0x03]] =
     (Inr \<lparr>b_data = 1\<rparr>, [[CHR 0x01, CHR 0x02, CHR 0x03], [CHR 0x01, CHR 0x02, CHR 0x03]]) \<and>
   SimpleBuffer_MapDiscard () \<lparr>b_data = 0\<rparr>
       [[CHR 0x01, CHR 0x02, CHR 0x03], [CHR 0x01, CHR 0x02, CHR 0x03]] =
     (Inr \<lparr>v_data = Ptr 0 0, v_size = 3\<rparr>,
      [[CHR 0x01, CHR 0x02, CHR 0x03], [CHR 0x01, CHR 0x02, CHR 0x03]]) \<and>
   SimpleBuffer_MapDiscard () \<lparr>b_data = 1\<rparr>
       [[CHR 0x01, CHR 0x02, CHR 0x03], [CHR 0x01, CHR 0x02, CHR 0x03]] =
     (Inr \<lparr>v_data = Ptr 1 0, v_size = 3\<rparr>,
      [[CHR 0x01, CHR 0x02, CHR 0x03], [CHR 0x01, CHR 0x02, CHR 0x03]]) \<and>
   write_bytes \<lparr>v_data = Ptr 0 0, v_size = 3\<rparr> [CHR 0x09, CHR 0x09, CHR 0x09]
       [[CHR 0x01, CHR 0x02, CHR 0x03], [CHR 0x01, CHR 0x02, CHR 0x03]] =
     Some [[CHR 0x09, CHR 0x09, CHR 0x09], [CHR 0x01, CHR 0x02, CHR 0x03]] \<and>
   view_bytes [[CHR 0x09, CHR 0x09, CHR 0x09], [CHR 0x01, CHR 0x02, CHR 0x03]]
       \<lparr>v_data = Ptr 0 0, v_size = 3\<rparr> = Some [CHR 0x09, CHR 0x09, CHR 0x09] \<and>
   view_bytes [[CHR 0x09, CHR 0x09, CHR 0x09], [CHR 0x01, CHR 0x02, CHR 0x03]]
       \<lparr>v_data = Ptr 1 0, v_size = 3\<rparr> = Some [CHR 0x01, CHR 0x02, CHR 0x03]"
proof -
  let ?B = "[CHR 0x01, CHR 0x02, CHR 0x03]"
  let ?N = "[CHR 0x09, CHR 0x09, CHR 0x09]"
  let ?b = "\<lparr>b_data = 0\<rparr>" and ?b2 = "\<lparr>b_data = 1\<rparr>"
  let ?v = "\<lparr>v_data = Ptr 0 0, v_size = 3\<rparr>" and ?v2 = "\<lparr>v_data = Ptr 1 0, v_size = 3\<rparr>"
  have c: "SimpleBuffer_of_data ?B [] = (?b, [?B])"
    by (simp add: SimpleBuffer_of_data_def vector_copy_def)
  have a: "SimpleBuffer_valid [?B] ?b"
    by (simp add: SimpleBuffer_valid_def)
  have cl: "SimpleBuffer_Clone ?b [?B] = (Inr ?b2, [?B, ?B])"
    by (simp add: SimpleBuffer_Clone_def SimpleBuffer_of_data_def vector_copy_def
        vector_elems_def)
  have m: "SimpleBuffer_MapDiscard () ?b [?B, ?B] = (Inr ?v, [?B, ?B])"
    by (simp add: SimpleBuffer_MapDiscard_def SimpleView_init_def View_init_def
        vector_data_def vector_size_def)
  have m2: "SimpleBuffer_MapDiscard () ?b2 [?B, ?B] = (Inr ?v2, [?B, ?B])"
    by (simp add: SimpleBuffer_MapDiscard_def SimpleView_init_def View_init_def
        vector_data_def vector_size_def)
  have w: "write_bytes ?v ?N [?B, ?B] = Some [?N, ?B]"
    by code_simp
  have r: "view_bytes [?N, ?B] ?v = Some ?N"
    by code_simp
  from SimpleBuffer_Clone_independent [OF a, of "()"] cl
  have "\<forall>v v2 ws h''.
      (SimpleBuffer_MapCurrent () ?b [?B, ?B] = (Inr (ready_value v), [?B, ?B]) \<or>
       SimpleBuffer_MapDiscard () ?b [?B, ?B] = (Inr v, [?B, ?B])) \<longrightarrow>
      (SimpleBuffer_MapCurrent () ?b2 [?B, ?B] = (Inr (ready_value v2), [?B, ?B]) \<or>
       SimpleBuffer_MapDiscard () ?b2 [?B, ?B] = (Inr v2, [?B, ?B])) \<longrightarrow>
      view_bytes [?B, ?B] v2 = Some (vector_elems [?B] (b_data ?b)) \<and>
      (assign_all v ws [?B, ?B] = Some h'' \<longrightarrow> view_bytes h'' v2 = view_bytes [?B, ?B] v2)"
    by auto
  with m m2 w have "view_bytes [?N, ?B] ?v2 = Some (vector_elems [?B] (b_data ?b))"
    unfolding write_bytes_def by metis
  then have r2: "view_bytes [?N, ?B] ?v2 = Some ?B"
    by (simp add: vector_elems_def)
  from c a cl m m2 w r r2 show ?thesis by (intro conjI)
qed

text \<open>
  Claim C3, as amended: for every buffer whose class does not override \<open>Clone\<close>, a call
  of \<open>Clone\<close> fails with a not-implemented condition and leaves the buffer, and the
  rest of the store, unchanged. The failure is a thrown \<open>std::runtime_error\<close> with the
  message \<open>Not implemented\<close>. It is distinct from the failures for want of a resource,
  \<open>std::bad_alloc\<close> and \<open>std::length_error\<close>, which are the other exceptions a call of
  the header can end with; the header has no transfer that could fail.
\<close>

theorem Buffer_Clone_not_implemented:
  "\<exists>e. BufferPtr_Clone (Inheriting_object x) h = (Inl e, h) \<and>
        Buffer_Clone x h = (Inl e :: exception + 'obj Buffer, h) \<and>
        e = runtime_error ''Not implemented'' \<and>
        e \<noteq> bad_alloc \<and> (\<forall>m. e \<noteq> length_error m)"
  by (simp add: Buffer_Clone_def)

text \<open>
  Claim C3 as it is stated has the failure be an explicit unsupported-operation error
  and not a thrown generic exception. For an object of a class that inherits \<open>Clone\<close>
  the call ends with a throw, and what is thrown is the \<open>std::runtime_error\<close> of the
  standard library.
\<close>

theorem Buffer_Clone_throws_runtime_error:
  "BufferPtr_Clone (Inheriting_object ()) [''abc''] =
     (Inl (runtime_error ''Not implemented''), [''abc''])"
  by (simp add: Buffer_Clone_def)

text \<open>
  Claim C4: a buffer constructed with size \<open>n\<close> has size \<open>n\<close>, and still has it after
  any sequence of calls of \<open>MapCurrent\<close>, \<open>MapDiscard\<close>, \<open>Clone\<close> and \<open>WriteBack\<close>
  and of assignments through views, on it and on the other buffers \<open>bs\<close> and views
  \<open>vs\<close> the caller holds.
\<close>

theorem SimpleBuffer_size_fixed:
  assumes "SimpleBuffer_of_size n h = (b, h0)"
    and "run ctx cs \<lparr>w_heap = h0, w_buffers = b # bs, w_views = vs\<rparr> = Some w"
  shows "SimpleBuffer_size h0 b = n \<and> w_buffers w ! 0 = b \<and> SimpleBuffer_size (w_heap w) b = n"
proof -
  from SimpleBuffer_of_size_valid [OF assms(1)]
  have a: "b_data b < length h0" and blk: "length (h0 ! b_data b) = unat n"
    by (auto simp: SimpleBuffer_valid_def)
  from run_heap [OF assms(2)] a
  have "length (w_heap w ! b_data b) = length (h0 ! b_data b)" and "w_buffers w ! 0 = b"
    by auto
  with blk show ?thesis by (simp add: SimpleBuffer_size_eq)
qed

theorem SimpleBuffer_size_fixed_witness:
  "SimpleBuffer_of_size 2 [] = (\<lparr>b_data = 0\<rparr>, [[CHR 0x00, CHR 0x00]]) \<and>
   run () [MapDiscard 0, Assign 0 1 (CHR ''a''), WriteBack 0, Clone 0, MapCurrent 1]
     \<lparr>w_heap = [[CHR 0x00, CHR 0x00]], w_buffers = [\<lparr>b_data = 0\<rparr>], w_views = []\<rparr> =
     Some \<lparr>w_heap = [[CHR 0x00, CHR ''a''], [CHR 0x00, CHR ''a'']],
           w_buffers = [\<lparr>b_data = 0\<rparr>, \<lparr>b_data = 1\<rparr>],
           w_views = [(0, \<lparr>v_data = Ptr 0 0, v_size = 2\<rparr>), (1, \<lparr>v_data = Ptr 1 0, v_size = 2\<rparr>)]\<rparr> \<and>
   SimpleBuffer_size [[CHR 0x00, CHR 0x00]] \<lparr>b_data = 0\<rparr> = 2 \<and>
   SimpleBuffer_size [[CHR 0x00, CHR ''a''], [CHR 0x00, CHR ''a'']] \<lparr>b_data = 0\<rparr> = 2"
proof -
  have a: "SimpleBuffer_of_size 2 [] = (\<lparr>b_data = 0\<rparr>, [[CHR 0x00, CHR 0x00]])"
    by code_simp
  have r: "run () [MapDiscard 0, Assign 0 1 (CHR ''a''), WriteBack 0, Clone 0, MapCurrent 1]
     \<lparr>w_heap = [[CHR 0x00, CHR 0x00]], w_buffers = [\<lparr>b_data = 0\<rparr>], w_views = []\<rparr> =
     Some \<lparr>w_heap = [[CHR 0x00, CHR ''a''], [CHR 0x00, CHR ''a'']],
           w_buffers = [\<lparr>b_data = 0\<rparr>, \<lparr>b_data = 1\<rparr>],
           w_views = [(0, \<lparr>v_data = Ptr 0 0, v_size = 2\<rparr>), (1, \<lparr>v_data = Ptr 1 0, v_size = 2\<rparr>)]\<rparr>"
    by code_simp
  from SimpleBuffer_size_fixed [OF a r] a r show ?thesis by simp
qed

text \<open>
  Claim C5: a \<open>SimpleBuffer\<close> freshly constructed with size \<open>n\<close> is zero-initialized. The
  view that \<open>MapDiscard\<close> or \<open>MapCurrent\<close> returns right after the construction has
  \<open>n\<close> bytes, and its byte at every index \<open>i < n\<close> is 0.
\<close>

theorem SimpleBuffer_zero_initialized:
  assumes "SimpleBuffer_of_size n h = (b, h0)"
    and "SimpleBuffer_MapDiscard ctx b h0 = (Inr v, h1) \<or>
         SimpleBuffer_MapCurrent ctx b h0 = (Inr (ready_value v), h1)"
  shows "View_size v = n \<and> (\<forall>i. i < n \<longrightarrow> load h1 (View_index v i) = Some (CHR 0x00))"
proof -
  from assms(1) have b: "b_data b = length h" and h0: "h0 = h @ [replicate (unat n) (CHR 0x00)]"
    by (auto simp: SimpleBuffer_of_size_eq)
  from assms(2) have v: "v = View_init (Ptr (b_data b) 0) (of_nat (length (h0 ! b_data b)))"
    and h1: "h1 = h0"
    using mapped_view [of ctx b h0 v h1] by auto
  have blk: "h0 ! b_data b = replicate (unat n) (CHR 0x00)"
    by (simp add: b h0)
  have "View_size v = n" by (simp add: v blk View_init_size)
  moreover have "load h1 (View_index v i) = Some (CHR 0x00)" if "i < n" for i
  proof -
    from that have "unat i < unat n" by (simp add: word_less_nat_alt)
    then show ?thesis
      by (simp add: v h1 View_init_index) (simp add: b h0)
  qed
  ultimately show ?thesis by blast
qed

theorem SimpleBuffer_zero_initialized_witness:
  "SimpleBuffer_of_size 4 [''ab''] = (\<lparr>b_data = 1\<rparr>, [''ab'', replicate 4 (CHR 0x00)]) \<and>
   SimpleBuffer_MapDiscard () \<lparr>b_data = 1\<rparr> [''ab'', replicate 4 (CHR 0x00)] =
     (Inr \<lparr>v_data = Ptr 1 0, v_size = 4\<rparr>, [''ab'', replicate 4 (CHR 0x00)]) \<and>
   View_size \<lparr>v_data = Ptr 1 0, v_size = 4\<rparr> = 4 \<and>
   load [''ab'', replicate 4 (CHR 0x00)] (View_index \<lparr>v_data = Ptr 1 0, v_size = 4\<rparr> 3) =
     Some (CHR 0x00)"
proof -
  have a: "SimpleBuffer_of_size 4 [''ab''] = (\<lparr>b_data = 1\<rparr>, [''ab'', replicate 4 (CHR 0x00)])"
    by (simp add: SimpleBuffer_of_size_def vector_fill_def)
  have b: "SimpleBuffer_MapDiscard () \<lparr>b_data = 1\<rparr> [''ab'', replicate 4 (CHR 0x00)] =
     (Inr \<lparr>v_data = Ptr 1 0, v_size = 4\<rparr>, [''ab'', replicate 4 (CHR 0x00)])"
    by (simp add: SimpleBuffer_MapDiscard_def SimpleView_init_def View_init_def
        vector_data_def vector_size_def)
  have c: "(3 :: 64 word) < 4" by simp
  from SimpleBuffer_zero_initialized [OF a disjI1 [OF b]] c a b show ?thesis by blast
qed

text \<open>
  Claim C6: \<open>MapDiscard\<close> returns the very view that the future of \<open>MapCurrent\<close>
  holds, and neither changes the store. The view starts at the data pointer of the
  vector and has the size of the buffer; for a buffer that exists it ends where the
  storage of the vector ends, and it reads the bytes the buffer had before the call.
\<close>

theorem SimpleBuffer_MapDiscard_is_MapCurrent:
  "\<exists>v. SimpleBuffer_MapDiscard ctx b h = (Inr v, h) \<and>
        SimpleBuffer_MapCurrent ctx' b h = (Inr (make_ready_future v), h) \<and>
        View_data v = vector_data (b_data b) \<and>
        View_size v = SimpleBuffer_size h b \<and>
        (SimpleBuffer_valid h b \<longrightarrow>
           View_begin v = Ptr (b_data b) 0 \<and>
           View_end v = Ptr (b_data b) (length (vector_elems h (b_data b))) \<and>
           view_bytes h v = Some (vector_elems h (b_data b)))"
proof -
  let ?v = "View_init (Ptr (b_data b) 0) (of_nat (length (h ! b_data b)))"
  have "SimpleBuffer_MapDiscard ctx b h = (Inr ?v, h)" by (rule MapDiscard_view)
  moreover have "SimpleBuffer_MapCurrent ctx' b h = (Inr (make_ready_future ?v), h)"
    by (simp add: MapCurrent_view make_ready_future_def)
  moreover have "View_data ?v = vector_data (b_data b)"
    by (simp add: View_data_def View_init_def vector_data_def)
  moreover have "View_size ?v = SimpleBuffer_size h b"
    by (simp add: View_init_size SimpleBuffer_size_eq)
  moreover have "View_begin ?v = Ptr (b_data b) 0"
    by (simp add: View_begin_def View_init_def)
  moreover have "View_end ?v = Ptr (b_data b) (length (vector_elems h (b_data b)))"
    if "SimpleBuffer_valid h b"
    using that
    by (simp add: View_end_def View_init_def vector_elems_def SimpleBuffer_valid_def unat_of_nat64)
  moreover have "view_bytes h ?v = Some (vector_elems h (b_data b))" if "SimpleBuffer_valid h b"
    using that view_bytes_whole_block [of "b_data b" h]
    by (simp add: vector_elems_def SimpleBuffer_valid_def)
  ultimately show ?thesis by blast
qed

theorem SimpleBuffer_MapDiscard_is_MapCurrent_witness:
  "SimpleBuffer_valid [''xyz''] \<lparr>b_data = 0\<rparr> \<and>
   (\<exists>v. SimpleBuffer_MapDiscard () \<lparr>b_data = 0\<rparr> [''xyz''] = (Inr v, [''xyz'']) \<and>
        SimpleBuffer_MapCurrent () \<lparr>b_data = 0\<rparr> [''xyz''] = (Inr (make_ready_future v), [''xyz'']) \<and>
        View_begin v = Ptr 0 0 \<and> View_end v = Ptr 0 3 \<and> view_bytes [''xyz''] v = Some ''xyz'')"
proof -
  have a: "SimpleBuffer_valid [''xyz''] \<lparr>b_data = 0\<rparr>"
    by (simp add: SimpleBuffer_valid_def)
  from SimpleBuffer_MapDiscard_is_MapCurrent [of "()" "\<lparr>b_data = 0\<rparr>" "[''xyz'']" "()"] a
  obtain v where "SimpleBuffer_MapDiscard () \<lparr>b_data = 0\<rparr> [''xyz''] = (Inr v, [''xyz''])"
    and "SimpleBuffer_MapCurrent () \<lparr>b_data = 0\<rparr> [''xyz''] = (Inr (make_ready_future v), [''xyz''])"
    and "View_begin v = Ptr (b_data \<lparr>b_data = 0\<rparr>) 0"
    and "View_end v = Ptr (b_data \<lparr>b_data = 0\<rparr>)
           (length (vector_elems [''xyz''] (b_data \<lparr>b_data = 0\<rparr>)))"
    and "view_bytes [''xyz''] v = Some (vector_elems [''xyz''] (b_data \<lparr>b_data = 0\<rparr>))"
    by blast
  moreover have "vector_elems [''xyz''] (b_data \<lparr>b_data = 0\<rparr>) = ''xyz''"
    by (simp add: vector_elems_def)
  moreover have "length ''xyz'' = 3" by simp
  ultimately show ?thesis using a by (intro conjI exI [of _ v]) simp_all
qed

text \<open>
  Claim C7, as amended: for every buffer, store and context, \<open>MapCurrent\<close> succeeds
  whenever its two allocations do, and then returns, without throwing, a future that is
  ready with a view and leaves the store as it was. The view aliases the storage of the
  vector: \<open>data()\<close> is the data pointer of the vector and \<open>size()\<close> its size, a read
  through \<open>operator[]\<close> or through \<open>data()\<close> gives the byte of the vector, and an
  assignment through the view changes that byte of the vector. When an allocation fails
  the call throws \<open>std::bad_alloc\<close> and the store is as it was. The future it returns is
  never one that is not ready or that holds an exception: the asynchronous failure
  channel is not taken.
\<close>

theorem SimpleBuffer_MapCurrent_succeeds:
  "(room_view \<and> room_state \<longrightarrow>
      (\<exists>f v. SimpleBuffer_MapCurrent_alloc room_view room_state ctx b h = (Inr f, h) \<and>
         is_ready f \<and> f = ready_value v \<and>
         View_data v = vector_data (b_data b) \<and>
         View_size v = vector_size h (b_data b) \<and>
         (SimpleBuffer_valid h b \<longrightarrow>
            (\<forall>pos. pos < View_size v \<longrightarrow>
               load h (View_index v pos) = Some (vector_elems h (b_data b) ! unat pos) \<and>
               load h (ptr_add (View_data v) pos) = Some (vector_elems h (b_data b) ! unat pos) \<and>
               (\<forall>c. \<exists>h'. store h (View_index v pos) c = Some h' \<and>
                  vector_elems h' (b_data b) = (vector_elems h (b_data b))[unat pos := c]))))) \<and>
   (\<not> (room_view \<and> room_state) \<longrightarrow>
      SimpleBuffer_MapCurrent_alloc room_view room_state ctx b h = (Inl bad_alloc, h)) \<and>
   fst (SimpleBuffer_MapCurrent_alloc room_view room_state ctx b h) \<noteq> Inr not_ready \<and>
   (\<forall>e. fst (SimpleBuffer_MapCurrent_alloc room_view room_state ctx b h) \<noteq>
          Inr (ready_exception e))"
proof -
  let ?a = "b_data b"
  let ?v = "View_init (Ptr ?a 0) (of_nat (length (h ! ?a)))"
  let ?call = "SimpleBuffer_MapCurrent_alloc room_view room_state ctx b h"
  have ok: "?call = (Inr (ready_value ?v), h)" if "room_view \<and> room_state"
    using that by (simp add: MapCurrent_alloc_room MapCurrent_view)
  have no: "?call = (Inl bad_alloc, h)" if "\<not> (room_view \<and> room_state)"
    using that by (rule MapCurrent_alloc_no_room)
  have d: "View_data ?v = vector_data ?a"
    by (simp add: View_data_def View_init_def vector_data_def)
  have ix: "ptr_add (View_data ?v) pos = View_index ?v pos" for pos
    by (simp add: View_data_def View_index_def)
  have sz: "View_size ?v = vector_size h ?a"
    by (simp add: View_init_size vector_size_def)
  have al: "load h (View_index ?v pos) = Some (vector_elems h ?a ! unat pos) \<and>
    load h (ptr_add (View_data ?v) pos) = Some (vector_elems h ?a ! unat pos) \<and>
    (\<forall>c. \<exists>h'. store h (View_index ?v pos) c = Some h' \<and>
       vector_elems h' ?a = (vector_elems h ?a)[unat pos := c])"
    if valid: "SimpleBuffer_valid h b" and pos: "pos < View_size ?v" for pos
  proof -
    from valid have a: "?a < length h" and small: "length (h ! ?a) < 2 ^ 64"
      by (simp_all add: SimpleBuffer_valid_def)
    from less_View_size [OF small pos] have p: "unat pos < length (h ! ?a)" .
    have "vector_elems (h[?a := (h ! ?a)[unat pos := c]]) ?a = (vector_elems h ?a)[unat pos := c]"
      for c using a by (simp add: vector_elems_def)
    with load_whole_block [OF a p] store_whole_block [OF a p] show ?thesis
      unfolding ix by (simp add: vector_elems_def)
  qed
  have first: "\<exists>f v. ?call = (Inr f, h) \<and> is_ready f \<and> f = ready_value v \<and>
         View_data v = vector_data ?a \<and> View_size v = vector_size h ?a \<and>
         (SimpleBuffer_valid h b \<longrightarrow>
            (\<forall>pos. pos < View_size v \<longrightarrow>
               load h (View_index v pos) = Some (vector_elems h ?a ! unat pos) \<and>
               load h (ptr_add (View_data v) pos) = Some (vector_elems h ?a ! unat pos) \<and>
               (\<forall>c. \<exists>h'. store h (View_index v pos) c = Some h' \<and>
                  vector_elems h' ?a = (vector_elems h ?a)[unat pos := c])))"
    if "room_view \<and> room_state"
    using ok [OF that] d sz al
    by (intro exI [of _ "ready_value ?v"] exI [of _ ?v]) simp
  have third: "fst ?call \<noteq> Inr not_ready"
    using ok no by (cases "room_view \<and> room_state") simp_all
  have fourth: "fst ?call \<noteq> Inr (ready_exception e)" for e
    using ok no by (cases "room_view \<and> room_state") simp_all
  from first no third fourth show ?thesis by blast
qed

theorem SimpleBuffer_MapCurrent_succeeds_witness:
  "SimpleBuffer_valid [''xyz''] \<lparr>b_data = 0\<rparr> \<and>
   (\<exists>v. SimpleBuffer_MapCurrent_alloc True True () \<lparr>b_data = 0\<rparr> [''xyz''] =
          (Inr (ready_value v), [''xyz'']) \<and>
      (1 :: 64 word) < View_size v \<and>
      load [''xyz''] (View_index v 1) = Some (CHR ''y'') \<and>
      load [''xyz''] (ptr_add (View_data v) 1) = Some (CHR ''y'') \<and>
      (\<exists>h'. store [''xyz''] (View_index v 1) (CHR ''a'') = Some h' \<and>
         vector_elems h' 0 = ''xaz''))"
proof -
  have a: "SimpleBuffer_valid [''xyz''] \<lparr>b_data = 0\<rparr>"
    by (simp add: SimpleBuffer_valid_def)
  from SimpleBuffer_MapCurrent_succeeds [of True True "()" "\<lparr>b_data = 0\<rparr>" "[''xyz'']"] a
  obtain v where m: "SimpleBuffer_MapCurrent_alloc True True () \<lparr>b_data = 0\<rparr> [''xyz''] =
          (Inr (ready_value v), [''xyz''])"
    and sz: "View_size v = vector_size [''xyz''] (b_data \<lparr>b_data = 0\<rparr>)"
    and al: "\<forall>pos. pos < View_size v \<longrightarrow>
       load [''xyz''] (View_index v pos) =
         Some (vector_elems [''xyz''] (b_data \<lparr>b_data = 0\<rparr>) ! unat pos) \<and>
       load [''xyz''] (ptr_add (View_data v) pos) =
         Some (vector_elems [''xyz''] (b_data \<lparr>b_data = 0\<rparr>) ! unat pos) \<and>
       (\<forall>c. \<exists>h'. store [''xyz''] (View_index v pos) c = Some h' \<and>
          vector_elems h' (b_data \<lparr>b_data = 0\<rparr>) =
            (vector_elems [''xyz''] (b_data \<lparr>b_data = 0\<rparr>))[unat pos := c])"
    by blast
  from sz have lt: "(1 :: 64 word) < View_size v" by (simp add: vector_size_def)
  have el: "vector_elems [''xyz''] (b_data \<lparr>b_data = 0\<rparr>) = ''xyz''"
    by (simp add: vector_elems_def)
  from al lt have ld: "load [''xyz''] (View_index v 1) = Some (''xyz'' ! unat (1 :: 64 word))"
    unfolding el by blast
  from al lt have ldd: "load [''xyz''] (ptr_add (View_data v) 1) =
      Some (''xyz'' ! unat (1 :: 64 word))"
    unfolding el by blast
  from al lt obtain h' where "store [''xyz''] (View_index v 1) (CHR ''a'') = Some h'"
    and "vector_elems h' (b_data \<lparr>b_data = 0\<rparr>) = ''xyz''[unat (1 :: 64 word) := CHR ''a'']"
    unfolding el by blast
  then have st: "\<exists>h'. store [''xyz''] (View_index v 1) (CHR ''a'') = Some h' \<and>
         vector_elems h' 0 = ''xaz''"
    by (intro exI [of _ h']) simp
  from ld have ld': "load [''xyz''] (View_index v 1) = Some (CHR ''y'')" by simp
  from ldd have ldd': "load [''xyz''] (ptr_add (View_data v) 1) = Some (CHR ''y'')" by simp
  from a m lt ld' ldd' st show ?thesis by (intro conjI exI [of _ v])
qed

text \<open>
  Claim C7 as it is stated has \<open>MapCurrent\<close> never take the synchronous failure
  channel. With no room in the free store for the view, or with room for the view and
  none for the shared state of the future, the call throws \<open>std::bad_alloc\<close>.
\<close>

theorem SimpleBuffer_MapCurrent_bad_alloc:
  "SimpleBuffer_MapCurrent_alloc False True () \<lparr>b_data = 0\<rparr> [''xyz''] =
     (Inl bad_alloc, [''xyz'']) \<and>
   SimpleBuffer_MapCurrent_alloc True False () \<lparr>b_data = 0\<rparr> [''xyz''] =
     (Inl bad_alloc, [''xyz''])"
  by (simp add: SimpleBuffer_MapCurrent_alloc_def operator_new_def)

text \<open>
  Claim C8: \<open>str()\<close> returns the \<open>size()\<close> bytes from \<open>data()\<close> on, the bytes that
  \<open>operator[]\<close> reads; it is a function of the store and returns no new one. In the
  scenario, from any store: a buffer of 16 bytes is constructed and mapped with
  \<open>MapDiscard\<close>, the 16 characters of \<open>HELLO, WORLD!!!!\<close> are written through the view,
  \<open>WriteBack\<close> is called, and \<open>str()\<close> of the view that \<open>MapCurrent\<close> then returns is
  that string.
\<close>

theorem View_str_reads_mapped_bytes:
  "(\<forall>hp v a off.
      View_data v = Ptr a off \<longrightarrow> a < length hp \<longrightarrow> off + unat (View_size v) \<le> length (hp ! a) \<longrightarrow>
      (\<exists>s. View_str hp v = Some s \<and> length s = unat (View_size v) \<and>
           (\<forall>k. k < View_size v \<longrightarrow> load hp (View_index v k) = Some (s ! unat k)))) \<and>
   (\<exists>b h0 v h1 h2 v' h3.
      SimpleBuffer_of_size 16 h = (b, h0) \<and>
      SimpleBuffer_MapDiscard ctx b h0 = (Inr v, h1) \<and>
      write_bytes v ''HELLO, WORLD!!!!'' h1 = Some h2 \<and>
      SimpleBuffer_MapCurrent ctx b (SimpleView_WriteBack ctx v h2) = (Inr (ready_value v'), h3) \<and>
      View_str h3 v' = Some ''HELLO, WORLD!!!!'')"
proof (intro conjI allI impI)
  fix hp :: heap and v a off
  assume d: "View_data v = Ptr a off" and a: "a < length hp"
    and fits: "off + unat (View_size v) \<le> length (hp ! a)"
  let ?n = "unat (View_size v)"
  let ?s = "take ?n (drop off (hp ! a))"
  have "View_str hp v = Some ?s"
    using d a fits
    by (simp add: View_str_def View_cbegin_def View_cend_def View_data_def View_size_def)
  moreover have "length ?s = ?n" using fits by simp
  moreover have "load hp (View_index v k) = Some (?s ! unat k)" if "k < View_size v" for k
  proof -
    from that have "unat k < ?n" by (simp add: word_less_nat_alt)
    with d a fits show ?thesis by (simp add: View_index_def View_data_def)
  qed
  ultimately show "\<exists>s. View_str hp v = Some s \<and> length s = unat (View_size v) \<and>
           (\<forall>k. k < View_size v \<longrightarrow> load hp (View_index v k) = Some (s ! unat k))"
    by blast
next
  let ?a = "length h"
  let ?h0 = "h @ [replicate (unat (16 :: 64 word)) (CHR 0x00)]"
  let ?v = "View_init (Ptr ?a 0) (of_nat (length (?h0 ! ?a)))"
  let ?B = "''HELLO, WORLD!!!!''"
  let ?h2 = "?h0[?a := ?B]"
  let ?v' = "View_init (Ptr ?a 0) (of_nat (length (?h2 ! ?a)))"
  have c: "SimpleBuffer_of_size 16 h = (\<lparr>b_data = ?a\<rparr>, ?h0)"
    by (rule SimpleBuffer_of_size_eq)
  have m: "SimpleBuffer_MapDiscard ctx \<lparr>b_data = ?a\<rparr> ?h0 = (Inr ?v, ?h0)"
    using MapDiscard_view [of ctx "\<lparr>b_data = ?a\<rparr>" ?h0] by simp
  have w: "write_bytes ?v ?B ?h0 = Some ?h2"
    by (rule write_bytes_block) (simp_all add: View_init_def)
  have wb: "SimpleView_WriteBack ctx ?v ?h2 = ?h2" by (simp add: SimpleView_WriteBack_def)
  have m': "SimpleBuffer_MapCurrent ctx \<lparr>b_data = ?a\<rparr> (SimpleView_WriteBack ctx ?v ?h2) =
              (Inr (ready_value ?v'), ?h2)"
    unfolding wb using MapCurrent_view [of ctx "\<lparr>b_data = ?a\<rparr>" ?h2] by simp
  have "View_str ?h2 (View_init (Ptr ?a 0) (of_nat (length ?B))) =
          Some (take (unat (of_nat (length ?B) :: 64 word)) (drop 0 (?h2 ! ?a)))"
    by (rule View_str_block) simp_all
  then have s: "View_str ?h2 ?v' = Some ?B" by simp
  from c m w m' s
  show "\<exists>b h0 v h1 h2 v' h3.
      SimpleBuffer_of_size 16 h = (b, h0) \<and>
      SimpleBuffer_MapDiscard ctx b h0 = (Inr v, h1) \<and>
      write_bytes v ''HELLO, WORLD!!!!'' h1 = Some h2 \<and>
      SimpleBuffer_MapCurrent ctx b (SimpleView_WriteBack ctx v h2) = (Inr (ready_value v'), h3) \<and>
      View_str h3 v' = Some ''HELLO, WORLD!!!!''"
    by (intro exI conjI)
qed

theorem View_str_reads_mapped_bytes_witness:
  "View_data \<lparr>v_data = Ptr 0 1, v_size = 3\<rparr> = Ptr 0 1 \<and>
   (0 :: nat) < length [''HELLO''] \<and>
   1 + unat (View_size \<lparr>v_data = Ptr 0 1, v_size = 3\<rparr>) \<le> length ([''HELLO''] ! 0) \<and>
   (2 :: 64 word) < View_size \<lparr>v_data = Ptr 0 1, v_size = 3\<rparr> \<and>
   View_str [''HELLO''] \<lparr>v_data = Ptr 0 1, v_size = 3\<rparr> = Some ''ELL'' \<and>
   load [''HELLO''] (View_index \<lparr>v_data = Ptr 0 1, v_size = 3\<rparr> 2) = Some (CHR ''L'')"
proof -
  let ?v = "\<lparr>v_data = Ptr 0 1, v_size = 3\<rparr>"
  have a: "View_data ?v = Ptr 0 1" by (simp add: View_data_def)
  have b: "(0 :: nat) < length [''HELLO'']" by simp
  have c: "1 + unat (View_size ?v) \<le> length ([''HELLO''] ! 0)" by (simp add: View_size_def)
  have d: "(2 :: 64 word) < View_size ?v" by (simp add: View_size_def)
  from View_str_reads_mapped_bytes [of "[]" "()", THEN conjunct1, rule_format, OF a b c]
  obtain s where s: "View_str [''HELLO''] ?v = Some s"
    and k: "\<forall>k. k < View_size ?v \<longrightarrow> load [''HELLO''] (View_index ?v k) = Some (s ! unat k)"
    by blast
  have e: "View_str [''HELLO''] ?v = Some ''ELL''"
    by (simp add: View_str_def View_cbegin_def View_cend_def)
  with s have "s = ''ELL''" by simp
  with k d have f: "load [''HELLO''] (View_index ?v 2) = Some (''ELL'' ! unat (2 :: 64 word))"
    by blast
  then have "load [''HELLO''] (View_index ?v 2) = Some (CHR ''L'')" by simp
  with a b c d e show ?thesis by (intro conjI)
qed

text \<open>
  Claim C9: every view a caller holds is at most as large as the buffer it was mapped
  from. This holds when the view is mapped and after every later call, \<open>WriteBack\<close>
  included: it is an invariant of the sequences of calls.
\<close>

theorem View_size_bounded:
  assumes "\<forall>b\<in>set (w_buffers w0). SimpleBuffer_valid (w_heap w0) b"
    and "\<forall>(i, v)\<in>set (w_views w0).
        i < length (w_buffers w0) \<and>
        View_size v \<le> SimpleBuffer_size (w_heap w0) (w_buffers w0 ! i)"
    and "run ctx cs w0 = Some w"
  shows "\<forall>(i, v)\<in>set (w_views w).
        i < length (w_buffers w) \<and> View_size v \<le> SimpleBuffer_size (w_heap w) (w_buffers w ! i)"
  using assms
proof (induction cs arbitrary: w0)
  case Nil
  then show ?case by simp
next
  case (Cons c cs)
  from Cons.prems(3) obtain w1 where e: "exec ctx c w0 = Some w1"
    and r: "run ctx cs w1 = Some w"
    by (auto split: option.splits)
  from exec_bounded [OF Cons.prems(1,2) e] Cons.IH [OF _ _ r] show ?case by blast
qed

theorem View_size_bounded_witness:
  "SimpleBuffer_valid [[CHR 0x00, CHR 0x00]] \<lparr>b_data = 0\<rparr> \<and>
   run () [MapDiscard 0, Assign 0 1 (CHR ''a''), WriteBack 0, Clone 0, MapCurrent 1]
     \<lparr>w_heap = [[CHR 0x00, CHR 0x00]], w_buffers = [\<lparr>b_data = 0\<rparr>], w_views = []\<rparr> =
     Some \<lparr>w_heap = [[CHR 0x00, CHR ''a''], [CHR 0x00, CHR ''a'']],
           w_buffers = [\<lparr>b_data = 0\<rparr>, \<lparr>b_data = 1\<rparr>],
           w_views = [(0, \<lparr>v_data = Ptr 0 0, v_size = 2\<rparr>), (1, \<lparr>v_data = Ptr 1 0, v_size = 2\<rparr>)]\<rparr> \<and>
   View_size \<lparr>v_data = Ptr 0 0, v_size = 2\<rparr> \<le>
     SimpleBuffer_size [[CHR 0x00, CHR ''a''], [CHR 0x00, CHR ''a'']] \<lparr>b_data = 0\<rparr> \<and>
   View_size \<lparr>v_data = Ptr 1 0, v_size = 2\<rparr> \<le>
     SimpleBuffer_size [[CHR 0x00, CHR ''a''], [CHR 0x00, CHR ''a'']] \<lparr>b_data = 1\<rparr>"
proof -
  let ?w0 = "\<lparr>w_heap = [[CHR 0x00, CHR 0x00]], w_buffers = [\<lparr>b_data = 0\<rparr>], w_views = []\<rparr>"
  have a: "\<forall>b\<in>set (w_buffers ?w0). SimpleBuffer_valid (w_heap ?w0) b"
    by (simp add: SimpleBuffer_valid_def)
  have b: "\<forall>(i, v)\<in>set (w_views ?w0).
        i < length (w_buffers ?w0) \<and>
        View_size v \<le> SimpleBuffer_size (w_heap ?w0) (w_buffers ?w0 ! i)"
    by simp
  have r: "run () [MapDiscard 0, Assign 0 1 (CHR ''a''), WriteBack 0, Clone 0, MapCurrent 1] ?w0 =
     Some \<lparr>w_heap = [[CHR 0x00, CHR ''a''], [CHR 0x00, CHR ''a'']],
           w_buffers = [\<lparr>b_data = 0\<rparr>, \<lparr>b_data = 1\<rparr>],
           w_views = [(0, \<lparr>v_data = Ptr 0 0, v_size = 2\<rparr>), (1, \<lparr>v_data = Ptr 1 0, v_size = 2\<rparr>)]\<rparr>"
    by code_simp
  from View_size_bounded [OF a b r] a r show ?thesis by simp
qed

text \<open>
  Claim C10: the views of a buffer alias its one backing store. With \<open>v1\<close> and \<open>v2\<close>
  two views of the buffer, mapped by either call, \<open>data()\<close> of both is the data pointer
  of the vector. A byte assigned through \<open>v1\<close>, by \<open>operator[]\<close> or through \<open>data()\<close>,
  is a byte of the vector, and it is read at once through \<open>operator[]\<close> and through
  \<open>data()\<close> of \<open>v1\<close>, of \<open>v2\<close> and of every view mapped after the assignment, with
  no \<open>WriteBack\<close> in between.
\<close>

theorem SimpleBuffer_views_alias:
  assumes "SimpleBuffer_valid h b"
    and "SimpleBuffer_MapCurrent ctx b h = (Inr (ready_value v1), h1) \<or>
         SimpleBuffer_MapDiscard ctx b h = (Inr v1, h1)"
    and "SimpleBuffer_MapCurrent ctx b h1 = (Inr (ready_value v2), h2) \<or>
         SimpleBuffer_MapDiscard ctx b h1 = (Inr v2, h2)"
    and "pos < View_size v1"
  shows "View_data v1 = View_data v2 \<and>
         View_data v1 = vector_data (b_data b) \<and>
         (\<exists>h3. store h2 (View_index v1 pos) c = Some h3 \<and>
            store h2 (ptr_add (View_data v1) pos) c = Some h3 \<and>
            vector_elems h3 (b_data b) = (vector_elems h2 (b_data b))[unat pos := c] \<and>
            load h3 (View_index v1 pos) = Some c \<and>
            load h3 (View_index v2 pos) = Some c \<and>
            load h3 (ptr_add (View_data v1) pos) = Some c \<and>
            load h3 (ptr_add (View_data v2) pos) = Some c \<and>
            (\<forall>v3 h4.
               SimpleBuffer_MapCurrent ctx b h3 = (Inr (ready_value v3), h4) \<or>
               SimpleBuffer_MapDiscard ctx b h3 = (Inr v3, h4) \<longrightarrow>
               load h4 (View_index v3 pos) = Some c \<and>
               load h4 (ptr_add (View_data v3) pos) = Some c))"
proof -
  let ?a = "b_data b"
  let ?v = "View_init (Ptr ?a 0) (of_nat (length (h ! ?a)))"
  let ?h = "h[?a := (h ! ?a)[unat pos := c]]"
  from assms(1) have a: "?a < length h" and small: "length (h ! ?a) < 2 ^ 64"
    by (simp_all add: SimpleBuffer_valid_def)
  from mapped_view [OF assms(2)] have v1: "v1 = ?v" and h1: "h1 = h" by simp_all
  from mapped_view [OF assms(3)] have v2: "v2 = ?v" and h2: "h2 = h" by (simp_all add: h1)
  from assms(4) have p: "unat pos < length (h ! ?a)"
    unfolding v1 using small by (rule less_View_size [rotated])
  have a': "?a < length ?h" and p': "unat pos < length (?h ! ?a)" using a p by simp_all
  have st: "store h (View_index ?v pos) c = Some ?h"
    using a p by (rule store_whole_block)
  have ld: "load ?h (View_index (View_init (Ptr ?a 0) n) pos) = Some c" for n
    using load_whole_block [OF a' p', of n] a p by simp
  have later: "load h4 (View_index v3 pos) = Some c \<and>
      load h4 (ptr_add (View_data v3) pos) = Some c"
    if "SimpleBuffer_MapCurrent ctx b ?h = (Inr (ready_value v3), h4) \<or>
        SimpleBuffer_MapDiscard ctx b ?h = (Inr v3, h4)" for v3 h4
    using mapped_view [OF that] ld by (simp add: ptr_add_View_data)
  have k1: "View_data v1 = View_data v2" by (simp add: v1 v2)
  have k2: "View_data v1 = vector_data ?a"
    by (simp add: v1 View_data_def View_init_def vector_data_def)
  have k3: "store h2 (View_index v1 pos) c = Some ?h" unfolding h2 v1 by (rule st)
  have k4: "store h2 (ptr_add (View_data v1) pos) c = Some ?h"
    unfolding ptr_add_View_data by (rule k3)
  have k5: "vector_elems ?h ?a = (vector_elems h2 ?a)[unat pos := c]"
    using a by (simp add: vector_elems_def h2)
  have k6: "load ?h (View_index v1 pos) = Some c" unfolding v1 by (rule ld)
  have k7: "load ?h (View_index v2 pos) = Some c" unfolding v2 by (rule ld)
  have k8: "load ?h (ptr_add (View_data v1) pos) = Some c"
    unfolding ptr_add_View_data by (rule k6)
  have k9: "load ?h (ptr_add (View_data v2) pos) = Some c"
    unfolding ptr_add_View_data by (rule k7)
  have k10: "\<forall>v3 h4.
       SimpleBuffer_MapCurrent ctx b ?h = (Inr (ready_value v3), h4) \<or>
       SimpleBuffer_MapDiscard ctx b ?h = (Inr v3, h4) \<longrightarrow>
       load h4 (View_index v3 pos) = Some c \<and>
       load h4 (ptr_add (View_data v3) pos) = Some c"
    using later by blast
  from k1 k2 k3 k4 k5 k6 k7 k8 k9 k10 show ?thesis
    by (intro conjI exI [of _ ?h])
qed

theorem SimpleBuffer_views_alias_witness:
  "SimpleBuffer_valid [''xyz''] \<lparr>b_data = 0\<rparr> \<and>
   SimpleBuffer_MapCurrent () \<lparr>b_data = 0\<rparr> [''xyz''] =
     (Inr (ready_value \<lparr>v_data = Ptr 0 0, v_size = 3\<rparr>), [''xyz'']) \<and>
   SimpleBuffer_MapDiscard () \<lparr>b_data = 0\<rparr> [''xyz''] =
     (Inr \<lparr>v_data = Ptr 0 0, v_size = 3\<rparr>, [''xyz'']) \<and>
   (2 :: 64 word) < View_size \<lparr>v_data = Ptr 0 0, v_size = 3\<rparr> \<and>
   View_data \<lparr>v_data = Ptr 0 0, v_size = 3\<rparr> = Ptr 0 0 \<and>
   store [''xyz''] (View_index \<lparr>v_data = Ptr 0 0, v_size = 3\<rparr> 2) (CHR ''a'') = Some [''xya''] \<and>
   load [''xya''] (View_index \<lparr>v_data = Ptr 0 0, v_size = 3\<rparr> 2) = Some (CHR ''a'') \<and>
   load [''xya''] (ptr_add (View_data \<lparr>v_data = Ptr 0 0, v_size = 3\<rparr>) 2) = Some (CHR ''a'')"
proof -
  let ?b = "\<lparr>b_data = 0\<rparr>" and ?v = "\<lparr>v_data = Ptr 0 0, v_size = 3\<rparr>"
  have a: "SimpleBuffer_valid [''xyz''] ?b"
    by (simp add: SimpleBuffer_valid_def)
  have m1: "SimpleBuffer_MapCurrent () ?b [''xyz''] = (Inr (ready_value ?v), [''xyz''])"
    by (simp add: SimpleBuffer_MapCurrent_def SimpleView_init_def View_init_def
        vector_data_def vector_size_def make_ready_future_def)
  have m2: "SimpleBuffer_MapDiscard () ?b [''xyz''] = (Inr ?v, [''xyz''])"
    by (simp add: SimpleBuffer_MapDiscard_def SimpleView_init_def View_init_def
        vector_data_def vector_size_def)
  have p: "(2 :: 64 word) < View_size ?v" by (simp add: View_size_def)
  have st: "store [''xyz''] (View_index ?v 2) (CHR ''a'') = Some [''xya'']"
    by (simp add: View_index_def)
  note al = SimpleBuffer_views_alias [OF a disjI1 [OF m1] disjI2 [OF m2] p, of "CHR ''a''"]
  from al have d: "View_data ?v = Ptr 0 0" by (simp add: vector_data_def)
  from al st have l1: "load [''xya''] (View_index ?v 2) = Some (CHR ''a'')" by auto
  from al st have l2: "load [''xya''] (ptr_add (View_data ?v) 2) = Some (CHR ''a'')" by auto
  from a m1 m2 p d st l1 l2 show ?thesis by (intro conjI)
qed

end
